theory Spec2Isabelle
  imports
    Complex_Main
    "HOL-Library.AList"
    "HOL-Library.Multiset"
    "HOL-Library.Char_ord"
    "HOL-Library.List_Lexorder"
    "HOL-Library.Product_Lexorder"
begin

section \<open>Values exchanged with the inference server\<close>

text \<open>
  A decoded JSON document, as \<open>resp.json()\<close> returns it. An object is the list of the
  items of the Python dict; a key is looked up with \<open>map_of\<close>. Python numbers are
  modelled by their exact rational value: an \<open>int\<close> as \<open>JInt\<close>, a finite \<open>float\<close>
  as \<open>JFloat\<close>. Infinities and NaN are outside the model.
\<close>

datatype json =
    JNull
  | JBool bool
  | JInt int
  | JFloat rat
  | JStr string
  | JArr "json list"
  | JObj "(string \<times> json) list"

datatype pyerror =
    RequestException
  | HTTPError
  | JSONDecodeError
  | AttributeError
  | KeyError
  | TypeError
  | ZeroDivisionError
  | StatisticsError
  | ValueError

text \<open>
  What one HTTP request does: it raises (connection refused, timeout, any transport
  error), or it returns a response with a status code and a body, which either decodes
  as JSON or does not.
\<close>

datatype body = Malformed | Parsed json

datatype outcome = Raised | Response int body

text \<open>
  The value stored for one (host, model) pair: the source returns either one of the
  strings \<open>"Failed (Warmup)"\<close>, \<open>"Failed"\<close> or a number.
\<close>

datatype pyval = PStr string | PNum rat

text \<open>The parsed command line, restricted to the fields the benchmark reads.\<close>

record args =
  runs :: int
  cooldown :: int
  timeout_load :: int
  timeout_bench :: int
  workers :: int

text \<open>
  The effects of the benchmark on one host are recorded in a history: each POST to the
  generation endpoint with its URL, model and timeout, and each cooldown sleep. The
  network is a function of the history so far and of the request: the answer of a host may
  depend on everything that was sent to it before.
\<close>

datatype event = Post string string int | Sleep int

type_synonym net = "event list \<Rightarrow> string \<Rightarrow> string \<Rightarrow> int \<Rightarrow> outcome"

section \<open>Python primitives\<close>

text \<open>\<open>d[k] = v\<close> on an insertion-ordered dict: an existing key keeps its place.\<close>

definition dict_set :: "'k \<Rightarrow> 'v \<Rightarrow> ('k \<times> 'v) list \<Rightarrow> ('k \<times> 'v) list" where
  "dict_set k v d = AList.update k v d"

text \<open>\<open>data.get(k, dflt)\<close>: only a dict has the method.\<close>

fun json_get :: "json \<Rightarrow> string \<Rightarrow> json \<Rightarrow> pyerror + json" where
  "json_get (JObj kvs) k dflt = Inr (case map_of kvs k of None \<Rightarrow> dflt | Some v \<Rightarrow> v)"
| "json_get _ k dflt = Inl AttributeError"

text \<open>\<open>data[k]\<close> with a string key.\<close>

fun json_item :: "json \<Rightarrow> string \<Rightarrow> pyerror + json" where
  "json_item (JObj kvs) k = (case map_of kvs k of None \<Rightarrow> Inl KeyError | Some v \<Rightarrow> Inr v)"
| "json_item _ k = Inl TypeError"

text \<open>\<open>v > 0\<close>: numbers compare (a bool is an int), anything else raises TypeError.\<close>

fun gt_zero :: "json \<Rightarrow> pyerror + bool" where
  "gt_zero (JInt n) = Inr (0 < n)"
| "gt_zero (JFloat x) = Inr (0 < x)"
| "gt_zero (JBool b) = Inr b"
| "gt_zero _ = Inl TypeError"

text \<open>
  Floating-point arithmetic rounds: \<open>rnd\<close> maps an exact rational result to the float
  that represents it. It is a parameter of the model, and nothing is assumed about it.
  \<open>to_float\<close> is the conversion of the left operand of \<open>v / f\<close> when \<open>f\<close> is a float.
\<close>

fun to_float :: "(rat \<Rightarrow> rat) \<Rightarrow> json \<Rightarrow> pyerror + rat" where
  "to_float rnd (JInt n) = Inr (rnd (of_int n))"
| "to_float rnd (JFloat x) = Inr x"
| "to_float rnd (JBool b) = Inr (if b then 1 else 0)"
| "to_float rnd _ = Inl TypeError"

definition truediv :: "(rat \<Rightarrow> rat) \<Rightarrow> json \<Rightarrow> rat \<Rightarrow> pyerror + rat" where
  "truediv rnd v f =
     (case to_float rnd v of
        Inl e \<Rightarrow> Inl e
      | Inr a \<Rightarrow> if f = 0 then Inl ZeroDivisionError else Inr (rnd (a / f)))"

text \<open>\<open>statistics.mean\<close>: the exact sum of the data, divided by their number, as a float.\<close>

definition mean :: "(rat \<Rightarrow> rat) \<Rightarrow> rat list \<Rightarrow> pyerror + rat" where
  "mean rnd xs =
     (if xs = [] then Inl StatisticsError
      else Inr (rnd (fold (+) xs 0 / of_nat (length xs))))"

text \<open>\<open>round(x, 2)\<close>: the nearest multiple of 1/100, a tie going to the even one.\<close>

definition round_half_even :: "rat \<Rightarrow> int" where
  "round_half_even x =
     (let f = \<lfloor>x\<rfloor>; r = x - of_int f
      in if r < 1 / 2 then f
         else if 1 / 2 < r then f + 1
         else if even f then f else f + 1)"

definition round2 :: "(rat \<Rightarrow> rat) \<Rightarrow> rat \<Rightarrow> rat" where
  "round2 rnd x = rnd (of_int (round_half_even (x * 100)) / 100)"

section \<open>Benchmark of one (host, model) pair\<close>

text \<open>
  The body of the \<open>try\<close> of one measured run, applied to what the POST did: an
  exception (\<open>Inl\<close>), no sample (\<open>Inr None\<close>) or a sample (\<open>Inr (Some tps)\<close>).
\<close>

definition measured_sample :: "(rat \<Rightarrow> rat) \<Rightarrow> outcome \<Rightarrow> pyerror + rat option" where
  "measured_sample rnd out =
     (case out of
        Raised \<Rightarrow> Inl RequestException
      | Response status b \<Rightarrow>
          if status = 200 then
            (case b of
               Malformed \<Rightarrow> Inl JSONDecodeError
             | Parsed data \<Rightarrow>
                 (case json_get data ''eval_duration'' (JInt 0) of
                    Inl e \<Rightarrow> Inl e
                  | Inr d \<Rightarrow>
                      (case gt_zero d of
                         Inl e \<Rightarrow> Inl e
                       | Inr False \<Rightarrow> Inr None
                       | Inr True \<Rightarrow>
                           (case json_item data ''eval_count'' of
                              Inl e \<Rightarrow> Inl e
                            | Inr c \<Rightarrow>
                                (case json_item data ''eval_duration'' of
                                   Inl e \<Rightarrow> Inl e
                                 | Inr d' \<Rightarrow>
                                     (case truediv rnd d' 1000000000 of
                                        Inl e \<Rightarrow> Inl e
                                      | Inr secs \<Rightarrow>
                                          (case truediv rnd c secs of
                                             Inl e \<Rightarrow> Inl e
                                           | Inr tps \<Rightarrow> Inr (Some tps))))))))
          else Inr None)"

text \<open>
  The loop \<open>for _ in range(args.runs)\<close>: each iteration sends one POST; an exception
  inside the \<open>try\<close> is swallowed by the bare \<open>except\<close>.
\<close>

fun measured_runs ::
  "(rat \<Rightarrow> rat) \<Rightarrow> net \<Rightarrow> string \<Rightarrow> string \<Rightarrow> int \<Rightarrow> nat \<Rightarrow> rat list \<Rightarrow> event list
     \<Rightarrow> rat list \<times> event list" where
  "measured_runs rnd nw url model tmo 0 samples hist = (samples, hist)"
| "measured_runs rnd nw url model tmo (Suc n) samples hist =
     (let out = nw hist url model tmo;
          hist' = hist @ [Post url model tmo]
      in case measured_sample rnd out of
           Inr (Some tps) \<Rightarrow> measured_runs rnd nw url model tmo n (samples @ [tps]) hist'
         | _ \<Rightarrow> measured_runs rnd nw url model tmo n samples hist')"

text \<open>The end of \<open>benchmarkSingleModel\<close>: the guard on the samples, then the mean.\<close>

definition aggregate :: "(rat \<Rightarrow> rat) \<Rightarrow> rat list \<Rightarrow> pyerror + pyval" where
  "aggregate rnd samples =
     (if samples = [] then Inr (PStr ''Failed'')
      else case mean rnd samples of
             Inl e \<Rightarrow> Inl e
           | Inr m \<Rightarrow> Inr (PNum (round2 rnd m)))"

definition generate_url :: "string \<Rightarrow> string" where
  "generate_url ip = ''http://'' @ ip @ '':11434/api/generate''"

definition benchmarkSingleModel ::
  "(rat \<Rightarrow> rat) \<Rightarrow> net \<Rightarrow> event list \<Rightarrow> string \<Rightarrow> string \<Rightarrow> args
     \<Rightarrow> (pyerror + pyval) \<times> event list" where
  "benchmarkSingleModel rnd nw hist ip model a =
     (let url = generate_url ip;
          hist1 = hist @ [Post url model (timeout_load a)]
      in case nw hist url model (timeout_load a) of
           Raised \<Rightarrow> (Inr (PStr ''Failed (Warmup)''), hist1)
         | Response status b \<Rightarrow>
             (let (samples, hist2) =
                    measured_runs rnd nw url model (timeout_bench a) (nat (runs a)) [] hist1
              in (aggregate rnd samples, hist2)))"

section \<open>Benchmark of one host, and of the inventory\<close>

text \<open>
  The loop of \<open>processHostBenchmarks\<close> over the models of one host, in order. After
  each model it sleeps; \<open>time.sleep\<close> raises ValueError for a negative length.
\<close>

fun host_loop ::
  "(rat \<Rightarrow> rat) \<Rightarrow> net \<Rightarrow> string \<Rightarrow> args \<Rightarrow> string list \<Rightarrow> (string \<times> pyval) list
     \<Rightarrow> event list \<Rightarrow> pyerror + (string \<times> pyval) list \<times> event list" where
  "host_loop rnd nw ip a [] results hist = Inr (results, hist)"
| "host_loop rnd nw ip a (model # models) results hist =
     (case benchmarkSingleModel rnd nw hist ip model a of
        (Inl e, hist') \<Rightarrow> Inl e
      | (Inr tps, hist') \<Rightarrow>
          if cooldown a < 0 then Inl ValueError
          else host_loop rnd nw ip a models (dict_set model tps results)
                 (hist' @ [Sleep (cooldown a)]))"

definition processHostBenchmarks ::
  "(rat \<Rightarrow> rat) \<Rightarrow> net \<Rightarrow> string \<Rightarrow> string list \<Rightarrow> args
     \<Rightarrow> pyerror + (string \<times> (string \<times> pyval) list) \<times> event list" where
  "processHostBenchmarks rnd nw ip models a =
     (case host_loop rnd nw ip a models [] [] of
        Inl e \<Rightarrow> Inl e
      | Inr (results, hist) \<Rightarrow> Inr ((ip, results), hist))"

text \<open>
  The fan-in of \<open>runRobustBenchmarks\<close>: the results of the futures are read in the
  order in which they complete; \<open>future.result()\<close> raises what the task raised.
\<close>

fun collect_stats ::
  "(pyerror + (string \<times> (string \<times> pyval) list) \<times> event list) list
     \<Rightarrow> (string \<times> (string \<times> pyval) list) list
     \<Rightarrow> pyerror + (string \<times> (string \<times> pyval) list) list" where
  "collect_stats [] final_stats = Inr final_stats"
| "collect_stats (Inl e # futures) final_stats = Inl e"
| "collect_stats (Inr ((ip, data), hist) # futures) final_stats =
     collect_stats futures (dict_set ip data final_stats)"

text \<open>
  \<open>sched\<close> is the order of completion: it rearranges the list of submitted tasks. A
  thread pool cannot be created with \<open>max_workers \<le> 0\<close>: the constructor raises
  ValueError.
\<close>

definition runRobustBenchmarks ::
  "(rat \<Rightarrow> rat) \<Rightarrow> net
     \<Rightarrow> ((pyerror + (string \<times> (string \<times> pyval) list) \<times> event list) list
          \<Rightarrow> (pyerror + (string \<times> (string \<times> pyval) list) \<times> event list) list)
     \<Rightarrow> (string \<times> string list) list \<Rightarrow> args
     \<Rightarrow> pyerror + (string \<times> (string \<times> pyval) list) list" where
  "runRobustBenchmarks rnd nw sched inventory a =
     (if workers a \<le> 0 then Inl ValueError
      else
        (let futures = map (\<lambda>(ip, mods). processHostBenchmarks rnd nw ip mods a) inventory
         in collect_stats (sched futures) []))"

section \<open>Routing table\<close>

text \<open>One row of the data frame, in the column order \<open>model, route, ip, tps\<close>.\<close>

record row =
  row_model :: string
  row_route :: string
  row_ip :: string
  row_tps :: rat

definition host_rows :: "string \<Rightarrow> (string \<times> pyval) list \<Rightarrow> row list" where
  "host_rows ip models =
     concat (map (\<lambda>(model, speed).
        case speed of
          PNum x \<Rightarrow>
            [\<lparr>row_model = model, row_route = ''ollama/'' @ model,
              row_ip = ''http://'' @ ip @ '':11434'', row_tps = x\<rparr>]
        | PStr s \<Rightarrow> []) models)"

text \<open>
  \<open>sort_values(by=["model", "tps"], ascending=[True, False])\<close> is a stable sort on the
  key (model, tps), the model ascending and the throughput descending.
\<close>

definition generateRoutingDataFrame :: "(string \<times> (string \<times> pyval) list) list \<Rightarrow> row list" where
  "generateRoutingDataFrame stats =
     (let rows = concat (map (\<lambda>(ip, models). host_rows ip models) stats)
      in if rows = [] then []
         else sort_key (\<lambda>r. (row_model r, - row_tps r)) rows)"

section \<open>Inventory\<close>

text \<open>The comprehension \<open>[m['name'] for m in ...]\<close> over a list.\<close>

fun names_of :: "json list \<Rightarrow> pyerror + json list" where
  "names_of [] = Inr []"
| "names_of (m # ms) =
     (case json_item m ''name'' of
        Inl e \<Rightarrow> Inl e
      | Inr n \<Rightarrow> (case names_of ms of Inl e \<Rightarrow> Inl e | Inr ns \<Rightarrow> Inr (n # ns)))"

text \<open>
  What the comprehension iterates over: the elements of a list, the keys of a dict,
  the characters of a string; any other value is not iterable.
\<close>

fun model_names :: "json \<Rightarrow> pyerror + json list" where
  "model_names (JArr ms) = names_of ms"
| "model_names (JObj kvs) = names_of (map (\<lambda>kv. JStr (fst kv)) kvs)"
| "model_names (JStr s) = names_of (map (\<lambda>c. JStr [c]) s)"
| "model_names _ = Inl TypeError"

text \<open>The body of the \<open>try\<close> of \<open>getModelsOnHost\<close>, applied to what the GET did.\<close>

definition tags_models :: "outcome \<Rightarrow> pyerror + json list" where
  "tags_models out =
     (case out of
        Raised \<Rightarrow> Inl RequestException
      | Response status b \<Rightarrow>
          if 400 \<le> status \<and> status < 600 then Inl HTTPError
          else
            (case b of
               Malformed \<Rightarrow> Inl JSONDecodeError
             | Parsed data \<Rightarrow>
                 (case json_get data ''models'' (JArr []) of
                    Inl e \<Rightarrow> Inl e
                  | Inr v \<Rightarrow> model_names v)))"

definition getModelsOnHost :: "outcome \<Rightarrow> string \<Rightarrow> string \<times> json list" where
  "getModelsOnHost out ip =
     (case tags_models out of
        Inl e \<Rightarrow> (ip, [])
      | Inr ms \<Rightarrow> (ip, ms))"

text \<open>
  \<open>tags i ip\<close> is what the GET of the \<open>i\<close>-th submitted task, to host \<open>ip\<close>, does;
  \<open>sched\<close> is the order of completion of the tasks.
\<close>

definition mapNetwork ::
  "(nat \<Rightarrow> string \<Rightarrow> outcome) \<Rightarrow> ((string \<times> json list) list \<Rightarrow> (string \<times> json list) list)
     \<Rightarrow> string list \<Rightarrow> (string \<times> json list) list" where
  "mapNetwork tags sched hosts =
     (let futures = map (\<lambda>(i, ip). getModelsOnHost (tags i ip) ip) (enumerate 0 hosts)
      in fold (\<lambda>(ip, models) inventory.
                 if models \<noteq> [] then dict_set ip models inventory else inventory)
           (sched futures) [])"

section \<open>Samples of a pair in closed form\<close>

text \<open>
  The sample, if any, that the \<open>k\<close>-th measured run of a pair contributes, when the
  history before the first measured run is \<open>hist\<close>: before the \<open>k\<close>-th run, \<open>k\<close>
  measured requests have been sent.
\<close>

definition kth_sample ::
  "(rat \<Rightarrow> rat) \<Rightarrow> net \<Rightarrow> string \<Rightarrow> string \<Rightarrow> int \<Rightarrow> event list \<Rightarrow> nat \<Rightarrow> rat option" where
  "kth_sample rnd nw url model tmo hist k =
     (case measured_sample rnd (nw (hist @ replicate k (Post url model tmo)) url model tmo) of
        Inr (Some tps) \<Rightarrow> Some tps
      | _ \<Rightarrow> None)"

section \<open>Example inputs\<close>

text \<open>
  The default arguments, with three runs, and networks used to evaluate the functions:
  one that refuses every connection, one whose every answer reports a duration of zero,
  one that answers every request with status 500, one that answers more slowly at each
  request, and one whose answer to the second measured run has no \<open>eval_count\<close>.
\<close>

definition example_args :: args where
  "example_args = \<lparr>runs = 3, cooldown = 5, timeout_load = 300, timeout_bench = 60, workers = 10\<rparr>"

definition net_down :: net where
  "net_down hist url model tmo = Raised"

definition net_zero_duration :: net where
  "net_zero_duration hist url model tmo =
     Response 200 (Parsed (JObj [(''eval_count'', JInt 100), (''eval_duration'', JInt 0)]))"

definition net_500 :: net where
  "net_500 hist url model tmo = Response 500 Malformed"

definition net_slowing :: net where
  "net_slowing hist url model tmo =
     Response 200 (Parsed (JObj
       [(''eval_count'', JInt 100),
        (''eval_duration'', JInt (int (length hist) * 3000000000))]))"

definition net_missing_count :: net where
  "net_missing_count hist url model tmo =
     (if length hist = 2
      then Response 200 (Parsed (JObj [(''eval_duration'', JInt 1000000000)]))
      else Response 200 (Parsed (JObj
             [(''eval_count'', JInt 100), (''eval_duration'', JInt 2000000000)])))"

text \<open>
  An inventory of two hosts and a network on which only the first host answers; the
  results of a benchmark, with one failure of each kind; and a model-listing endpoint
  that answers with two models, with none, with an error status, and not at all.
\<close>

definition example_inventory :: "(string \<times> string list) list" where
  "example_inventory = [(''100.1.1.1'', [''llama3'', ''phi3'']), (''100.1.1.2'', [''llama3''])]"

definition net_one_host :: net where
  "net_one_host hist url model tmo =
     (if url = generate_url ''100.1.1.1''
      then Response 200 (Parsed (JObj
             [(''eval_count'', JInt 100), (''eval_duration'', JInt 2000000000)]))
      else Raised)"

definition example_stats :: "(string \<times> (string \<times> pyval) list) list" where
  "example_stats =
     [(''100.1.1.1'', [(''phi3'', PNum 31), (''llama3'', PNum (2037 / 100))]),
      (''100.1.1.2'', [(''llama3'', PNum 50), (''phi3'', PStr ''Failed'')]),
      (''100.1.1.3'', [(''llama3'', PStr ''Failed (Warmup)'')])]"

definition example_tags :: "nat \<Rightarrow> string \<Rightarrow> outcome" where
  "example_tags i ip =
     (if ip = ''100.1.1.1'' then
        Response 200 (Parsed (JObj [(''models'',
          JArr [JObj [(''name'', JStr ''llama3'')], JObj [(''name'', JStr ''phi3'')]])]))
      else if ip = ''100.1.1.2'' then Response 200 (Parsed (JObj [(''models'', JArr [])]))
      else if ip = ''100.1.1.3'' then Response 404 (Parsed (JObj [(''models'',
          JArr [JObj [(''name'', JStr ''llama3'')]])]))
      else Raised)"

section \<open>The body of the inventory loop\<close>

text \<open>
  What \<open>mapNetwork\<close> does with the result of one completed task: a host with a
  non-empty model list is stored, any other is skipped.
\<close>

definition inv_step :: "string \<times> json list \<Rightarrow> (string \<times> json list) list \<Rightarrow> (string \<times> json list) list" where
  "inv_step = (\<lambda>(ip, models) inventory.
                 if models \<noteq> [] then dict_set ip models inventory else inventory)"

section \<open>The measured runs\<close>

lemma fold_plus_sum: "fold (+) xs (s::rat) = s + sum_list xs"
  by (induction xs arbitrary: s) (simp_all add: algebra_simps)

lemma mean_nonempty: "xs \<noteq> [] \<Longrightarrow> mean rnd xs = Inr (rnd (sum_list xs / of_nat (length xs)))"
  by (simp add: mean_def fold_plus_sum)

lemma aggregate_eq:
  "aggregate rnd xs =
     (if xs = [] then Inr (PStr ''Failed'')
      else Inr (PNum (round2 rnd (rnd (sum_list xs / of_nat (length xs))))))"
  by (simp add: aggregate_def mean_nonempty)

lemma measured_runs_eq:
  "measured_runs rnd nw url model tmo n samples hist =
     (samples @ List.map_filter (kth_sample rnd nw url model tmo hist) [0..<n],
      hist @ replicate n (Post url model tmo))"
proof (induction n arbitrary: samples hist)
  case 0
  show ?case by simp
next
  case (Suc n)
  have shift: "kth_sample rnd nw url model tmo (hist @ [Post url model tmo]) k
      = kth_sample rnd nw url model tmo hist (Suc k)" for k
    by (simp add: kth_sample_def replicate_app_Cons_same)
  have up: "[0..<Suc n] = 0 # map Suc [0..<n]"
    by (simp add: upt_conv_Cons map_Suc_upt del: upt_Suc)
  have mf: "List.map_filter f (map Suc xs) = List.map_filter (\<lambda>k. f (Suc k)) xs" for f :: "nat \<Rightarrow> rat option" and xs
    by (induction xs) (simp_all split: option.splits)
  show ?case
    unfolding up
    by (simp add: Suc.IH shift mf Let_def kth_sample_def[of _ _ _ _ _ _ 0]
        replicate_app_Cons_same
        split: sum.splits option.splits)
qed


lemma warmup_raised:
  "nw hist (generate_url ip) model (timeout_load a) = Raised \<Longrightarrow>
   benchmarkSingleModel rnd nw hist ip model a =
     (Inr (PStr ''Failed (Warmup)''),
      hist @ [Post (generate_url ip) model (timeout_load a)])"
  by (simp add: benchmarkSingleModel_def Let_def)

lemma warmup_response:
  "nw hist (generate_url ip) model (timeout_load a) = Response status b \<Longrightarrow>
   benchmarkSingleModel rnd nw hist ip model a =
     (aggregate rnd
        (List.map_filter
           (kth_sample rnd nw (generate_url ip) model (timeout_bench a)
              (hist @ [Post (generate_url ip) model (timeout_load a)]))
           [0..<nat (runs a)]),
      hist @ [Post (generate_url ip) model (timeout_load a)]
        @ replicate (nat (runs a)) (Post (generate_url ip) model (timeout_bench a)))"
  by (simp add: benchmarkSingleModel_def Let_def measured_runs_eq)

lemma aggregate_not_warmup: "aggregate rnd xs \<noteq> Inr (PStr ''Failed (Warmup)'')"
  by (simp add: aggregate_eq)

lemma truediv_nonzero: "truediv rnd v f = Inr q \<Longrightarrow> f \<noteq> 0"
  by (auto simp: truediv_def split: sum.splits if_splits)

lemma sample_only_if_positive:
  assumes "measured_sample rnd out = Inr (Some tps)"
  shows "\<exists>kvs d c secs.
           out = Response 200 (Parsed (JObj kvs))
         \<and> map_of kvs ''eval_duration'' = Some d \<and> gt_zero d = Inr True
         \<and> map_of kvs ''eval_count'' = Some c
         \<and> truediv rnd d 1000000000 = Inr secs \<and> secs \<noteq> 0
         \<and> truediv rnd c secs = Inr tps"
proof -
  from assms obtain status b where out: "out = Response status b"
    by (cases out) (simp_all add: measured_sample_def)
  with assms have st: "status = 200"
    by (simp add: measured_sample_def split: if_splits)
  with assms out obtain data where b: "b = Parsed data"
    by (cases b) (simp_all add: measured_sample_def)
  with assms out st obtain kvs where data: "data = JObj kvs"
    by (cases data) (simp_all add: measured_sample_def)
  from assms show ?thesis
    unfolding out st b data measured_sample_def
    by (auto split: option.splits sum.splits bool.splits if_splits dest: truediv_nonzero)
qed

lemma no_sample_if_not_positive:
  assumes "out = Response status (Parsed (JObj kvs))"
    and "map_of kvs ''eval_duration'' = None
         \<or> (\<exists>d. map_of kvs ''eval_duration'' = Some d \<and> gt_zero d = Inr False)"
  shows "measured_sample rnd out = Inr None"
  using assms by (auto simp: measured_sample_def)

lemma map_filter_empty: "(\<And>x. x \<in> set xs \<Longrightarrow> f x = None) \<Longrightarrow> List.map_filter f xs = []"
  by (induction xs) simp_all

lemma map_filter_skip:
  "f j = None \<Longrightarrow> List.map_filter f (filter (\<lambda>k. k \<noteq> j) xs) = List.map_filter f xs"
  by (induction xs) (simp_all split: option.splits)

section \<open>Claims about one (host, model) pair\<close>

text \<open>
  Claim C2. If the warm-up request raises (a transport error or a timeout), then
  \<open>benchmarkSingleModel\<close> returns the marker \<open>Failed (Warmup)\<close> and the only request
  it has sent is the warm-up: no measured generation request is issued, whatever the
  number of runs.
\<close>

theorem C2_warmup_failure_no_measured_runs:
  assumes "nw hist (generate_url ip) model (timeout_load a) = Raised"
  shows "benchmarkSingleModel rnd nw hist ip model a =
           (Inr (PStr ''Failed (Warmup)''),
            hist @ [Post (generate_url ip) model (timeout_load a)])"
  using assms by (rule warmup_raised)

theorem C2_warmup_failure_no_measured_runs_witness:
  "net_down [] (generate_url ''100.1.1.1'') ''llama3'' (timeout_load example_args) = Raised
   \<and> benchmarkSingleModel id net_down [] ''100.1.1.1'' ''llama3'' example_args =
       (Inr (PStr ''Failed (Warmup)''),
        [Post ''http://100.1.1.1:11434/api/generate'' ''llama3'' 300])"
proof -
  have h: "net_down [] (generate_url ''100.1.1.1'') ''llama3'' (timeout_load example_args) = Raised"
    by (simp add: net_down_def)
  show ?thesis
    using h C2_warmup_failure_no_measured_runs
      [of net_down "[]" "''100.1.1.1''" "''llama3''" example_args id]
    by (simp add: generate_url_def example_args_def)
qed

text \<open>
  Claim C9. The marker \<open>Failed (Warmup)\<close> is returned exactly when the warm-up request
  raises. A warm-up that receives a response, whatever its status code and body, is
  followed by one measured request for each run.
\<close>

theorem C9_warmup_any_response_proceeds:
  "(fst (benchmarkSingleModel rnd nw hist ip model a) = Inr (PStr ''Failed (Warmup)''))
     = (nw hist (generate_url ip) model (timeout_load a) = Raised)
   \<and> (\<forall>status b. nw hist (generate_url ip) model (timeout_load a) = Response status b \<longrightarrow>
        snd (benchmarkSingleModel rnd nw hist ip model a) =
          hist @ [Post (generate_url ip) model (timeout_load a)]
            @ replicate (nat (runs a)) (Post (generate_url ip) model (timeout_bench a)))"
proof (cases "nw hist (generate_url ip) model (timeout_load a)")
  case Raised
  then show ?thesis by (simp add: warmup_raised)
next
  case (Response status b)
  then show ?thesis by (simp add: warmup_response aggregate_not_warmup)
qed

theorem C9_warmup_any_response_proceeds_witness:
  "fst (benchmarkSingleModel id net_500 [] ''100.1.1.1'' ''llama3'' example_args)
     \<noteq> Inr (PStr ''Failed (Warmup)'')
   \<and> snd (benchmarkSingleModel id net_500 [] ''100.1.1.1'' ''llama3'' example_args) =
       [Post ''http://100.1.1.1:11434/api/generate'' ''llama3'' 300,
        Post ''http://100.1.1.1:11434/api/generate'' ''llama3'' 60,
        Post ''http://100.1.1.1:11434/api/generate'' ''llama3'' 60,
        Post ''http://100.1.1.1:11434/api/generate'' ''llama3'' 60]"
proof -
  have three: "replicate 3 x = [x, x, x]" for x :: event
    by (simp add: numeral_3_eq_3)
  show ?thesis
    using C9_warmup_any_response_proceeds
      [of id net_500 "[]" "''100.1.1.1''" "''llama3''" example_args]
    by (simp add: net_500_def generate_url_def example_args_def three)
qed

text \<open>
  Claim C3. A measured run yields a sample only from a response with status 200 whose
  \<open>eval_duration\<close> is a strictly positive number, and the sample is then
  \<open>eval_count / (eval_duration / 1e9)\<close>, with a non-zero divisor. A response whose
  \<open>eval_duration\<close> is missing, zero or negative yields no sample and raises nothing.
  If the warm-up is answered and every measured run reports \<open>eval_duration = 0\<close>, the
  result of the pair is the marker \<open>Failed\<close>.
\<close>

theorem C3_sample_only_for_positive_duration:
  "(\<forall>out tps. measured_sample rnd out = Inr (Some tps) \<longrightarrow>
      (\<exists>kvs d c secs.
          out = Response 200 (Parsed (JObj kvs))
        \<and> map_of kvs ''eval_duration'' = Some d \<and> gt_zero d = Inr True
        \<and> map_of kvs ''eval_count'' = Some c
        \<and> truediv rnd d 1000000000 = Inr secs \<and> secs \<noteq> 0
        \<and> truediv rnd c secs = Inr tps))
   \<and> (\<forall>status kvs.
        (map_of kvs ''eval_duration'' = None
         \<or> (\<exists>d. map_of kvs ''eval_duration'' = Some d \<and> gt_zero d = Inr False)) \<longrightarrow>
        measured_sample rnd (Response status (Parsed (JObj kvs))) = Inr None)
   \<and> (nw hist (generate_url ip) model (timeout_load a) \<noteq> Raised
      \<and> (\<forall>k<nat (runs a). \<exists>status kvs.
            nw (hist @ [Post (generate_url ip) model (timeout_load a)]
                  @ replicate k (Post (generate_url ip) model (timeout_bench a)))
               (generate_url ip) model (timeout_bench a)
              = Response status (Parsed (JObj kvs))
            \<and> map_of kvs ''eval_duration'' = Some (JInt 0)) \<longrightarrow>
      fst (benchmarkSingleModel rnd nw hist ip model a) = Inr (PStr ''Failed''))"
proof (intro conjI allI impI)
  fix out tps
  assume "measured_sample rnd out = Inr (Some tps)"
  then show "\<exists>kvs d c secs.
          out = Response 200 (Parsed (JObj kvs))
        \<and> map_of kvs ''eval_duration'' = Some d \<and> gt_zero d = Inr True
        \<and> map_of kvs ''eval_count'' = Some c
        \<and> truediv rnd d 1000000000 = Inr secs \<and> secs \<noteq> 0
        \<and> truediv rnd c secs = Inr tps"
    by (rule sample_only_if_positive)
next
  fix status kvs
  assume "map_of kvs ''eval_duration'' = None
         \<or> (\<exists>d. map_of kvs ''eval_duration'' = Some d \<and> gt_zero d = Inr False)"
  then show "measured_sample rnd (Response status (Parsed (JObj kvs))) = Inr None"
    by (rule no_sample_if_not_positive[OF refl])
next
  let ?url = "generate_url ip"
  let ?h1 = "hist @ [Post ?url model (timeout_load a)]"
  assume h: "nw hist ?url model (timeout_load a) \<noteq> Raised
      \<and> (\<forall>k<nat (runs a). \<exists>status kvs.
            nw (hist @ [Post ?url model (timeout_load a)]
                  @ replicate k (Post ?url model (timeout_bench a)))
               ?url model (timeout_bench a)
              = Response status (Parsed (JObj kvs))
            \<and> map_of kvs ''eval_duration'' = Some (JInt 0))"
  then obtain status b where warm: "nw hist ?url model (timeout_load a) = Response status b"
    by (cases "nw hist ?url model (timeout_load a)") auto
  have none: "kth_sample rnd nw ?url model (timeout_bench a) ?h1 k = None"
    if "k \<in> set [0..<nat (runs a)]" for k
  proof -
    from that h obtain st kvs where
      r: "nw (?h1 @ replicate k (Post ?url model (timeout_bench a))) ?url model (timeout_bench a)
            = Response st (Parsed (JObj kvs))"
      and z: "map_of kvs ''eval_duration'' = Some (JInt 0)"
      by auto
    have "measured_sample rnd (Response st (Parsed (JObj kvs))) = Inr None"
      using z by (intro no_sample_if_not_positive[OF refl]) simp
    with r show ?thesis by (simp add: kth_sample_def)
  qed
  show "fst (benchmarkSingleModel rnd nw hist ip model a) = Inr (PStr ''Failed'')"
  proof -
    have "List.map_filter (kth_sample rnd nw ?url model (timeout_bench a) ?h1) [0..<nat (runs a)] = []"
      by (rule map_filter_empty) (rule none)
    with warm show ?thesis by (simp add: warmup_response aggregate_eq)
  qed
qed

theorem C3_sample_only_for_positive_duration_witness:
  "measured_sample id
      (Response 200 (Parsed (JObj [(''eval_count'', JInt 100), (''eval_duration'', JInt 2000000000)])))
     = Inr (Some 50)
   \<and> measured_sample id
      (Response 200 (Parsed (JObj [(''eval_count'', JInt 100), (''eval_duration'', JInt 0)])))
     = Inr None
   \<and> measured_sample id (Response 200 (Parsed (JObj [(''eval_count'', JInt 100)]))) = Inr None
   \<and> fst (benchmarkSingleModel id net_zero_duration [] ''100.1.1.1'' ''llama3'' example_args)
     = Inr (PStr ''Failed'')"
proof -
  note c3 = C3_sample_only_for_positive_duration
    [of id net_zero_duration "[]" "''100.1.1.1''" "''llama3''" example_args]
  have pos: "measured_sample id
      (Response 200 (Parsed (JObj [(''eval_count'', JInt 100), (''eval_duration'', JInt 2000000000)])))
     = Inr (Some 50)"
    by (simp add: measured_sample_def truediv_def)
  from c3 have "\<exists>kvs d c secs.
          Response 200 (Parsed (JObj [(''eval_count'', JInt 100), (''eval_duration'', JInt 2000000000)]))
            = Response 200 (Parsed (JObj kvs))
        \<and> map_of kvs ''eval_duration'' = Some d \<and> gt_zero d = Inr True
        \<and> map_of kvs ''eval_count'' = Some c
        \<and> truediv id d 1000000000 = Inr secs \<and> secs \<noteq> 0
        \<and> truediv id c secs = Inr (50::rat)"
    using pos by blast
  have z1: "measured_sample id
      (Response 200 (Parsed (JObj [(''eval_count'', JInt 100), (''eval_duration'', JInt 0)])))
     = Inr None"
    using c3 by simp
  have z2: "measured_sample id (Response 200 (Parsed (JObj [(''eval_count'', JInt 100)]))) = Inr None"
    using c3 by simp
  have z3: "fst (benchmarkSingleModel id net_zero_duration [] ''100.1.1.1'' ''llama3'' example_args)
     = Inr (PStr ''Failed'')"
    using c3 by (simp add: net_zero_duration_def)
  from pos z1 z2 z3 show ?thesis by simp
qed

text \<open>
  Claim C4, as stated, does not hold for a pair whose warm-up request raises: no sample
  is collected, and the result is \<open>Failed (Warmup)\<close>, not \<open>Failed\<close>.
\<close>

theorem C4_counterexample:
  "benchmarkSingleModel id net_down [] ''100.1.1.1'' ''llama3'' example_args
     = (Inr (PStr ''Failed (Warmup)''),
        [Post ''http://100.1.1.1:11434/api/generate'' ''llama3'' 300])
   \<and> PStr ''Failed (Warmup)'' \<noteq> PStr ''Failed''"
  by (simp add: benchmarkSingleModel_def generate_url_def net_down_def example_args_def)

lemma slowing_samples:
  "List.map_filter
     (kth_sample id net_slowing (generate_url ''100.1.1.1'') ''llama3'' (timeout_bench example_args)
        ([] @ [Post (generate_url ''100.1.1.1'') ''llama3'' (timeout_load example_args)]))
     [0..<nat (runs example_args)] = [100 / 3, 100 / 6, 100 / 9]"
  by code_simp

lemma round2_example: "round2 id (id (sum_list [100 / 3, 100 / 6, 100 / 9] / of_nat (length [100 / 3, 100 / 6, 100 / (9::rat)]))) = 2037 / 100"
  by code_simp

text \<open>
  Claim C4, amended. For a pair whose warm-up request is answered, the result is the
  arithmetic mean of the collected samples rounded to 2 decimal places if at least one
  sample was collected, and the marker \<open>Failed\<close> if none was; \<open>statistics.mean\<close> never
  raises.
\<close>

theorem C4_rounded_mean_or_failed:
  assumes "nw hist (generate_url ip) model (timeout_load a) = Response status b"
  shows "fst (benchmarkSingleModel rnd nw hist ip model a) =
           (let samples =
                  List.map_filter
                    (kth_sample rnd nw (generate_url ip) model (timeout_bench a)
                       (hist @ [Post (generate_url ip) model (timeout_load a)]))
                    [0..<nat (runs a)]
            in if samples = [] then Inr (PStr ''Failed'')
               else Inr (PNum (round2 rnd (rnd (sum_list samples / of_nat (length samples))))))"
  using assms by (simp add: warmup_response aggregate_eq Let_def)

theorem C4_rounded_mean_or_failed_witness:
  "net_slowing [] (generate_url ''100.1.1.1'') ''llama3'' (timeout_load example_args)
     = Response 200 (Parsed (JObj [(''eval_count'', JInt 100), (''eval_duration'', JInt 0)]))
   \<and> fst (benchmarkSingleModel id net_slowing [] ''100.1.1.1'' ''llama3'' example_args)
     = Inr (PNum (2037 / 100))"
proof -
  have w: "net_slowing [] (generate_url ''100.1.1.1'') ''llama3'' (timeout_load example_args)
     = Response 200 (Parsed (JObj [(''eval_count'', JInt 100), (''eval_duration'', JInt 0)]))"
    by (simp add: net_slowing_def)
  show ?thesis
    using w C4_rounded_mean_or_failed
      [of net_slowing "[]" "''100.1.1.1''" "''llama3''" example_args 200
          "Parsed (JObj [(''eval_count'', JInt 100), (''eval_duration'', JInt 0)])" id]
    by (simp only: slowing_samples round2_example Let_def) simp
qed

text \<open>
  Claim C10. A measured run answered with status 200 and a strictly positive
  \<open>eval_duration\<close> but no \<open>eval_count\<close> raises KeyError inside its \<open>try\<close>. The pair
  still sends all its measured requests, and its result is aggregated from the samples
  of the other runs (the marker \<open>Failed\<close> when there is none).
\<close>

theorem C10_missing_eval_count_contained:
  assumes warm: "nw hist (generate_url ip) model (timeout_load a) = Response status b"
    and j: "j < nat (runs a)"
    and resp: "nw (hist @ [Post (generate_url ip) model (timeout_load a)]
                     @ replicate j (Post (generate_url ip) model (timeout_bench a)))
                  (generate_url ip) model (timeout_bench a)
                 = Response 200 (Parsed (JObj kvs))"
    and dur: "map_of kvs ''eval_duration'' = Some d" "gt_zero d = Inr True"
    and cnt: "map_of kvs ''eval_count'' = None"
  shows "measured_sample rnd (Response 200 (Parsed (JObj kvs))) = Inl KeyError
       \<and> benchmarkSingleModel rnd nw hist ip model a =
           (aggregate rnd
              (List.map_filter
                 (kth_sample rnd nw (generate_url ip) model (timeout_bench a)
                    (hist @ [Post (generate_url ip) model (timeout_load a)]))
                 (filter (\<lambda>k. k \<noteq> j) [0..<nat (runs a)])),
            hist @ [Post (generate_url ip) model (timeout_load a)]
              @ replicate (nat (runs a)) (Post (generate_url ip) model (timeout_bench a)))"
proof -
  have raised: "measured_sample rnd (Response 200 (Parsed (JObj kvs))) = Inl KeyError"
    using dur cnt by (simp add: measured_sample_def)
  have "kth_sample rnd nw (generate_url ip) model (timeout_bench a)
          (hist @ [Post (generate_url ip) model (timeout_load a)]) j = None"
    using resp raised by (simp add: kth_sample_def)
  then show ?thesis
    using warm raised by (simp add: warmup_response map_filter_skip)
qed

theorem C10_missing_eval_count_contained_witness:
  "measured_sample id (Response 200 (Parsed (JObj [(''eval_duration'', JInt 1000000000)])))
     = Inl KeyError
   \<and> benchmarkSingleModel id net_missing_count [] ''100.1.1.1'' ''llama3'' example_args
     = (Inr (PNum 50),
        [Post ''http://100.1.1.1:11434/api/generate'' ''llama3'' 300,
         Post ''http://100.1.1.1:11434/api/generate'' ''llama3'' 60,
         Post ''http://100.1.1.1:11434/api/generate'' ''llama3'' 60,
         Post ''http://100.1.1.1:11434/api/generate'' ''llama3'' 60])"
proof -
  have others: "aggregate id
      (List.map_filter
         (kth_sample id net_missing_count (generate_url ''100.1.1.1'') ''llama3''
            (timeout_bench example_args)
            ([] @ [Post (generate_url ''100.1.1.1'') ''llama3'' (timeout_load example_args)]))
         (filter (\<lambda>k. k \<noteq> 1) [0..<nat (runs example_args)])) = Inr (PNum 50)"
    by code_simp
  have hist: "[] @ [Post (generate_url ''100.1.1.1'') ''llama3'' (timeout_load example_args)]
      @ replicate (nat (runs example_args))
          (Post (generate_url ''100.1.1.1'') ''llama3'' (timeout_bench example_args))
    = [Post ''http://100.1.1.1:11434/api/generate'' ''llama3'' 300,
       Post ''http://100.1.1.1:11434/api/generate'' ''llama3'' 60,
       Post ''http://100.1.1.1:11434/api/generate'' ''llama3'' 60,
       Post ''http://100.1.1.1:11434/api/generate'' ''llama3'' 60]"
    by code_simp
  show ?thesis
    using C10_missing_eval_count_contained
      [of net_missing_count "[]" "''100.1.1.1''" "''llama3''" example_args 200
          "Parsed (JObj [(''eval_count'', JInt 100), (''eval_duration'', JInt 2000000000)])"
          1 "[(''eval_duration'', JInt 1000000000)]" "JInt 1000000000" id]
    unfolding others hist
    by (simp add: net_missing_count_def example_args_def)
qed

text \<open>
  Claim C8. The aggregated result of a non-empty list of samples, its mean rounded to
  2 decimal places, is the same for every permutation of the list.
\<close>

theorem C8_aggregate_order_independent:
  assumes "xs \<noteq> []" and "mset ys = mset xs"
  shows "aggregate rnd ys = aggregate rnd xs
       \<and> aggregate rnd xs = Inr (PNum (round2 rnd (rnd (sum_list xs / of_nat (length xs)))))"
proof -
  have "sum_list ys = sum_list xs"
    using assms(2) by (metis sum_mset_sum_list)
  moreover have "length ys = length xs"
    using assms(2) by (metis size_mset)
  moreover have "ys = [] \<longleftrightarrow> xs = []"
    using assms(2) by (metis mset_zero_iff)
  ultimately show ?thesis
    using assms(1) by (simp add: aggregate_eq)
qed

theorem C8_aggregate_order_independent_witness:
  "[50, 25 / 2, 100 / 3] \<noteq> ([]::rat list)
   \<and> mset [100 / 3, 50, 25 / 2] = mset [50, 25 / 2, 100 / (3::rat)]
   \<and> aggregate id [100 / 3, 50, 25 / 2] = aggregate id [50, 25 / 2, 100 / 3]
   \<and> aggregate id [50, 25 / 2, 100 / 3] = Inr (PNum (3194 / 100))"
proof -
  have m: "mset [100 / 3, 50, 25 / 2] = mset [50, 25 / 2, 100 / (3::rat)]"
    by simp
  have v: "round2 id (id (sum_list [50, 25 / 2, 100 / 3]
             / of_nat (length [50, 25 / 2, 100 / (3::rat)]))) = 3194 / 100"
    by code_simp
  show ?thesis
    using m C8_aggregate_order_independent[of "[50, 25 / 2, 100 / 3]" "[100 / 3, 50, 25 / 2]" id]
    unfolding v by simp
qed

section \<open>Properties of the benchmark of a host and of the inventory\<close>

lemma benchmark_returns:
  "\<exists>v. fst (benchmarkSingleModel rnd nw hist ip model a) = Inr v
     \<and> (v = PStr ''Failed (Warmup)'' \<or> v = PStr ''Failed'' \<or> (\<exists>x. v = PNum x))"
proof (cases "nw hist (generate_url ip) model (timeout_load a)")
  case Raised
  then show ?thesis by (simp add: warmup_raised)
next
  case (Response status b)
  then show ?thesis by (simp add: warmup_response aggregate_eq)
qed

lemma dict_set_keys: "fst ` set (dict_set k v d) = insert k (fst ` set d)"
  by (simp add: dict_set_def dom_update)

lemma dict_set_distinct: "distinct (map fst d) \<Longrightarrow> distinct (map fst (dict_set k v d))"
  by (simp add: dict_set_def distinct_update)

lemma dict_set_subset: "set (dict_set k v d) \<subseteq> insert (k, v) (set d)"
  unfolding dict_set_def by (induction d) auto

lemma dict_set_map_of: "map_of (dict_set k v d) = (map_of d)(k \<mapsto> v)"
  by (simp add: dict_set_def update_conv')

lemma host_loop_total:
  "0 \<le> cooldown a \<Longrightarrow> \<exists>res h. host_loop rnd nw ip a models results hist = Inr (res, h)"
proof (induction models arbitrary: results hist)
  case Nil
  show ?case by simp
next
  case (Cons model models)
  obtain v where v: "fst (benchmarkSingleModel rnd nw hist ip model a) = Inr v"
    using benchmark_returns by blast
  obtain r h1 where b: "benchmarkSingleModel rnd nw hist ip model a = (r, h1)"
    by (cases "benchmarkSingleModel rnd nw hist ip model a")
  with v have r: "r = Inr v" by simp
  from Cons.IH[OF Cons.prems] show ?case
    using Cons.prems by (simp add: b r)
qed

lemma host_loop_result:
  assumes "host_loop rnd nw ip a models results hist = Inr (res, h)"
  shows "fst ` set res = fst ` set results \<union> set models
       \<and> (distinct (map fst results) \<longrightarrow> distinct (map fst res))
       \<and> (\<forall>(m, v) \<in> set res. (m, v) \<in> set results
            \<or> ((v = PStr ''Failed (Warmup)'' \<or> v = PStr ''Failed'' \<or> (\<exists>x. v = PNum x))
               \<and> (\<exists>h0. fst (benchmarkSingleModel rnd nw h0 ip m a) = Inr v)))"
  using assms
proof (induction models arbitrary: results hist)
  case Nil
  then show ?case by auto
next
  case (Cons model models)
  obtain r h1 where b: "benchmarkSingleModel rnd nw hist ip model a = (r, h1)"
    by (cases "benchmarkSingleModel rnd nw hist ip model a")
  obtain v where v: "fst (benchmarkSingleModel rnd nw hist ip model a) = Inr v"
    and mk: "v = PStr ''Failed (Warmup)'' \<or> v = PStr ''Failed'' \<or> (\<exists>x. v = PNum x)"
    using benchmark_returns by blast
  from b v have r: "r = Inr v" by simp
  from Cons.prems have cd: "\<not> cooldown a < 0"
    by (simp add: b r split: if_splits)
  with Cons.prems have rec:
    "host_loop rnd nw ip a models (dict_set model v results) (h1 @ [Sleep (cooldown a)]) = Inr (res, h)"
    by (simp add: b r)
  note ih = Cons.IH[OF rec]
  have keys: "fst ` set res = fst ` set results \<union> set (model # models)"
    using ih by (auto simp: dict_set_keys)
  have dist: "distinct (map fst results) \<longrightarrow> distinct (map fst res)"
    using ih by (simp add: dict_set_distinct)
  have vals: "(m, w) \<in> set results
            \<or> ((w = PStr ''Failed (Warmup)'' \<or> w = PStr ''Failed'' \<or> (\<exists>x. w = PNum x))
               \<and> (\<exists>h0. fst (benchmarkSingleModel rnd nw h0 ip m a) = Inr w))"
    if mem: "(m, w) \<in> set res" for m w
  proof -
    from ih mem have "(m, w) \<in> set (dict_set model v results)
        \<or> ((w = PStr ''Failed (Warmup)'' \<or> w = PStr ''Failed'' \<or> (\<exists>x. w = PNum x))
               \<and> (\<exists>h0. fst (benchmarkSingleModel rnd nw h0 ip m a) = Inr w))"
      by auto
    moreover have "(m, w) \<in> set results \<or> (m = model \<and> w = v)"
      if "(m, w) \<in> set (dict_set model v results)"
      using that dict_set_subset[of model v results] by auto
    ultimately show ?thesis
      using mk v by blast
  qed
  from keys dist vals show ?case by blast
qed


lemma processHost_total:
  "0 \<le> cooldown a \<Longrightarrow> \<exists>res h. processHostBenchmarks rnd nw ip models a = Inr ((ip, res), h)"
  using host_loop_total[of a rnd nw ip models "[]" "[]"]
  by (auto simp: processHostBenchmarks_def)

lemma processHost_result:
  assumes "processHostBenchmarks rnd nw ip models a = Inr ((ip', res), h)"
  shows "ip' = ip \<and> fst ` set res = set models \<and> distinct (map fst res)
       \<and> (\<forall>(m, v) \<in> set res.
            (v = PStr ''Failed (Warmup)'' \<or> v = PStr ''Failed'' \<or> (\<exists>x. v = PNum x))
            \<and> (\<exists>h0. fst (benchmarkSingleModel rnd nw h0 ip m a) = Inr v))"
proof -
  from assms have hl: "host_loop rnd nw ip a models [] [] = Inr (res, h)" and ip: "ip' = ip"
    by (auto simp: processHostBenchmarks_def split: sum.splits)
  from host_loop_result[OF hl] ip show ?thesis by auto
qed

lemma collect_stats_total:
  "(\<And>f. f \<in> set fs \<Longrightarrow> \<exists>r. f = Inr r) \<Longrightarrow> \<exists>stats. collect_stats fs st = Inr stats"
proof (induction fs st rule: collect_stats.induct)
  case (1 final_stats)
  show ?case by simp
next
  case (2 e futures final_stats)
  from "2.prems"[of "Inl e"] show ?case by simp
next
  case (3 ip data hist futures final_stats)
  then show ?case by simp
qed

lemma collect_stats_result:
  assumes "collect_stats fs st = Inr stats"
  shows "(\<forall>f \<in> set fs. \<exists>r. f = Inr r)
       \<and> fst ` set stats = fst ` set st \<union> {ip. \<exists>data h. Inr ((ip, data), h) \<in> set fs}
       \<and> (distinct (map fst st) \<longrightarrow> distinct (map fst stats))"
  using assms
proof (induction fs st rule: collect_stats.induct)
  case (1 final_stats)
  then show ?case by simp
next
  case (2 e futures final_stats)
  then show ?case by simp
next
  case (3 ip data hist futures final_stats)
  from "3.prems" have rec: "collect_stats futures (dict_set ip data final_stats) = Inr stats"
    by simp
  note ih = "3.IH"[OF rec]
  have a: "\<forall>f \<in> set (Inr ((ip, data), hist) # futures). \<exists>r. f = Inr r"
    using ih by simp
  have b: "fst ` set stats = fst ` set final_stats
      \<union> {i. \<exists>d h. Inr ((i, d), h) \<in> set (Inr ((ip, data), hist) # futures)}"
    using ih by (auto simp: dict_set_keys)
  have c: "distinct (map fst final_stats) \<longrightarrow> distinct (map fst stats)"
    using ih by (simp add: dict_set_distinct)
  from a b c show ?case by blast
qed

lemma collect_stats_untouched:
  assumes "collect_stats fs st = Inr stats"
    and "\<And>data h. Inr ((ip, data), h) \<notin> set fs"
  shows "map_of stats ip = map_of st ip"
  using assms
proof (induction fs st rule: collect_stats.induct)
  case (1 final_stats)
  then show ?case by simp
next
  case (2 e futures final_stats)
  then show ?case by simp
next
  case (3 ip' data hist futures final_stats)
  from "3.prems"(2)[of data hist] have ne: "ip' \<noteq> ip" by auto
  from "3.prems" have "map_of stats ip = map_of (dict_set ip' data final_stats) ip"
    by (intro "3.IH") auto
  with ne show ?case by (simp add: dict_set_map_of)
qed

lemma collect_stats_lookup:
  assumes "collect_stats fs st = Inr stats"
    and "distinct (map (\<lambda>f. case f of Inl e \<Rightarrow> [] | Inr r \<Rightarrow> fst (fst r)) fs)"
    and "Inr ((ip, data), h) \<in> set fs"
  shows "map_of stats ip = Some data"
  using assms
proof (induction fs st rule: collect_stats.induct)
  case (1 final_stats)
  then show ?case by simp
next
  case (2 e futures final_stats)
  then show ?case by simp
next
  case (3 ip' data' hist futures final_stats)
  from "3.prems"(1) have rec: "collect_stats futures (dict_set ip' data' final_stats) = Inr stats"
    by simp
  show ?case
  proof (cases "Inr ((ip, data), h) \<in> set futures")
    case True
    from "3.prems"(2) have "distinct (map (\<lambda>f. case f of Inl e \<Rightarrow> [] | Inr r \<Rightarrow> fst (fst r)) futures)"
      by simp
    from "3.IH"[OF rec this True] show ?thesis .
  next
    case False
    with "3.prems"(3) have eq: "ip' = ip" "data' = data" by auto
    have "Inr ((ip, d), k) \<notin> set futures" for d k
    proof
      assume "Inr ((ip, d), k) \<in> set futures"
      then have "ip \<in> (\<lambda>f. case f of Inl e \<Rightarrow> [] | Inr r \<Rightarrow> fst (fst r)) ` set futures"
        by force
      with "3.prems"(2) eq show False by simp
    qed
    from collect_stats_untouched[OF rec this] eq show ?thesis
      by (simp add: dict_set_map_of)
  qed
qed


lemma perm_distinct_map:
  assumes "mset xs = mset ys" and "distinct (map f ys)"
  shows "distinct (map f xs)"
proof -
  from assms(1) have "mset (map f xs) = mset (map f ys)" by simp
  with assms(2) show ?thesis by (metis mset_eq_imp_distinct_iff)
qed

lemma example_run:
  "runRobustBenchmarks id net_one_host rev example_inventory example_args =
     Inr [(''100.1.1.2'', [(''llama3'', PStr ''Failed (Warmup)'')]),
          (''100.1.1.1'', [(''llama3'', PNum 50), (''phi3'', PNum 50)])]"
  by code_simp

text \<open>
  Claim C1. For an inventory with distinct hosts, whatever the order in which the
  per-host tasks complete: the orchestrator returns whenever the cooldown is not
  negative and the worker ceiling is positive, and when it returns, the result has
  exactly the hosts of the inventory as keys and, for each host, exactly its models,
  each with one value. That value is what \<open>benchmarkSingleModel\<close> returned for the
  pair: a number or one of the two failure markers. A host whose models all failed is
  a key like any other.
\<close>

theorem C1_every_pair_has_one_entry:
  assumes dist: "distinct (map fst inventory)"
    and perm: "\<And>fs. mset (sched fs) = mset fs"
  shows "(0 \<le> cooldown a \<and> 0 < workers a \<longrightarrow>
            (\<exists>stats. runRobustBenchmarks rnd nw sched inventory a = Inr stats))
       \<and> (\<forall>stats. runRobustBenchmarks rnd nw sched inventory a = Inr stats \<longrightarrow>
            distinct (map fst stats)
          \<and> set (map fst stats) = set (map fst inventory)
          \<and> (\<forall>(ip, mods) \<in> set inventory.
               \<exists>res. map_of stats ip = Some res
                   \<and> distinct (map fst res)
                   \<and> set (map fst res) = set mods
                   \<and> (\<forall>(m, v) \<in> set res.
                        (v = PStr ''Failed (Warmup)'' \<or> v = PStr ''Failed'' \<or> (\<exists>x. v = PNum x))
                        \<and> (\<exists>h. fst (benchmarkSingleModel rnd nw h ip m a) = Inr v))))"
proof (intro conjI allI impI)
  let ?F = "\<lambda>(ip, mods). processHostBenchmarks rnd nw ip mods a"
  let ?futures = "map ?F inventory"
  have same: "set (sched ?futures) = set ?futures"
    using perm[of ?futures] by (rule mset_eq_setD)
  have futs: "f \<in> set ?futures \<longleftrightarrow>
      (\<exists>ip mods. (ip, mods) \<in> set inventory \<and> f = processHostBenchmarks rnd nw ip mods a)" for f
    by force
  {
    assume ok: "0 \<le> cooldown a \<and> 0 < workers a"
    have "\<exists>r. f = Inr r" if "f \<in> set (sched ?futures)" for f
    proof -
      from that same futs obtain ip mods where "f = processHostBenchmarks rnd nw ip mods a"
        by blast
      with processHost_total[of a rnd nw ip mods] ok show ?thesis by auto
    qed
    then have "\<exists>stats. collect_stats (sched ?futures) [] = Inr stats"
      by (rule collect_stats_total)
    with ok show "\<exists>stats. runRobustBenchmarks rnd nw sched inventory a = Inr stats"
      by (simp add: runRobustBenchmarks_def)
  }
  fix stats
  assume run: "runRobustBenchmarks rnd nw sched inventory a = Inr stats"
  then have cs: "collect_stats (sched ?futures) [] = Inr stats"
    by (simp add: runRobustBenchmarks_def split: if_splits)
  note res = collect_stats_result[OF cs]
  have allInr: "\<exists>r. f = Inr r" if "f \<in> set ?futures" for f
    using res that same by blast
  have inF: "processHostBenchmarks rnd nw ip mods a \<in> set ?futures"
    if "(ip, mods) \<in> set inventory" for ip mods
    using that futs by blast
  have host: "\<exists>res h. processHostBenchmarks rnd nw ip mods a = Inr ((ip, res), h)"
    if "(ip, mods) \<in> set inventory" for ip mods
  proof -
    from allInr[OF inF[OF that]] obtain ip' r h where
      e: "processHostBenchmarks rnd nw ip mods a = Inr ((ip', r), h)"
      by (cases "processHostBenchmarks rnd nw ip mods a") auto
    with processHost_result[OF e] show ?thesis by simp
  qed
  show "distinct (map fst stats)"
    using res by simp
  show "set (map fst stats) = set (map fst inventory)"
  proof -
    have "{ip. \<exists>data h. Inr ((ip, data), h) \<in> set (sched ?futures)} = fst ` set inventory"
    proof (intro equalityI subsetI)
      fix ip
      assume "ip \<in> {ip. \<exists>data h. Inr ((ip, data), h) \<in> set (sched ?futures)}"
      then obtain data h where "Inr ((ip, data), h) \<in> set ?futures"
        using same by blast
      with futs obtain ip0 mods where mem: "(ip0, mods) \<in> set inventory"
        and e: "processHostBenchmarks rnd nw ip0 mods a = Inr ((ip, data), h)"
        by metis
      from processHost_result[OF e] have "ip = ip0" by simp
      with mem show "ip \<in> fst ` set inventory" by force
    next
      fix ip
      assume "ip \<in> fst ` set inventory"
      then obtain mods where mem: "(ip, mods) \<in> set inventory" by auto
      from host[OF mem] obtain r h where
        e: "processHostBenchmarks rnd nw ip mods a = Inr ((ip, r), h)" by blast
      from inF[OF mem] e same have "Inr ((ip, r), h) \<in> set (sched ?futures)" by simp
      then show "ip \<in> {ip. \<exists>data h. Inr ((ip, data), h) \<in> set (sched ?futures)}" by blast
    qed
    with res show ?thesis by simp
  qed
  show "\<forall>(ip, mods) \<in> set inventory.
               \<exists>res. map_of stats ip = Some res
                   \<and> distinct (map fst res)
                   \<and> set (map fst res) = set mods
                   \<and> (\<forall>(m, v) \<in> set res.
                        (v = PStr ''Failed (Warmup)'' \<or> v = PStr ''Failed'' \<or> (\<exists>x. v = PNum x))
                        \<and> (\<exists>h. fst (benchmarkSingleModel rnd nw h ip m a) = Inr v))"
  proof (intro ballI, clarify)
    fix ip mods
    assume mem: "(ip, mods) \<in> set inventory"
    let ?K = "\<lambda>f. case f of Inl e \<Rightarrow> [] | Inr r \<Rightarrow> fst (fst r)"
    from host[OF mem] obtain r h where
      e: "processHostBenchmarks rnd nw ip mods a = Inr ((ip, r), h)" by blast
    from inF[OF mem] e same have inS: "Inr ((ip, r), h) \<in> set (sched ?futures)" by simp
    have Kf: "?K (?F x) = fst x" if "x \<in> set inventory" for x
    proof -
      obtain i ms where x: "x = (i, ms)" by (cases x)
      with that host[of i ms] show ?thesis by auto
    qed
    have "map ?K ?futures = map (\<lambda>x. ?K (?F x)) inventory"
      by (simp add: comp_def)
    also have "\<dots> = map fst inventory"
      using Kf by (intro map_cong refl)
    finally have mk: "map ?K ?futures = map fst inventory" .
    have "distinct (map ?K ?futures)"
      unfolding mk by (rule dist)
    with perm[of ?futures] have dK: "distinct (map ?K (sched ?futures))"
      by (rule perm_distinct_map)
    from collect_stats_lookup[OF cs dK inS] have look: "map_of stats ip = Some r" .
    from processHost_result[OF e] look
    show "\<exists>res. map_of stats ip = Some res
                   \<and> distinct (map fst res)
                   \<and> set (map fst res) = set mods
                   \<and> (\<forall>(m, v) \<in> set res.
                        (v = PStr ''Failed (Warmup)'' \<or> v = PStr ''Failed'' \<or> (\<exists>x. v = PNum x))
                        \<and> (\<exists>h. fst (benchmarkSingleModel rnd nw h ip m a) = Inr v))"
      by auto
  qed
qed

theorem C1_every_pair_has_one_entry_witness:
  "distinct (map fst example_inventory)
   \<and> 0 \<le> cooldown example_args \<and> 0 < workers example_args
   \<and> (\<exists>stats. runRobustBenchmarks id net_one_host rev example_inventory example_args = Inr stats
        \<and> distinct (map fst stats)
        \<and> set (map fst stats) = {''100.1.1.1'', ''100.1.1.2''}
        \<and> (\<exists>res. map_of stats ''100.1.1.1'' = Some res \<and> distinct (map fst res)
               \<and> set (map fst res) = {''llama3'', ''phi3''})
        \<and> (\<exists>res. map_of stats ''100.1.1.2'' = Some res \<and> distinct (map fst res)
               \<and> set (map fst res) = {''llama3''}))
   \<and> runRobustBenchmarks id net_one_host rev example_inventory example_args =
       Inr [(''100.1.1.2'', [(''llama3'', PStr ''Failed (Warmup)'')]),
            (''100.1.1.1'', [(''llama3'', PNum 50), (''phi3'', PNum 50)])]"
proof -
  have d: "distinct (map fst example_inventory)"
    by (simp add: example_inventory_def)
  have ok: "0 \<le> cooldown example_args \<and> 0 < workers example_args"
    by (simp add: example_args_def)
  note c1 = C1_every_pair_has_one_entry
    [of example_inventory rev example_args id net_one_host, OF d mset_rev]
  from c1 ok have "\<exists>stats. runRobustBenchmarks id net_one_host rev example_inventory example_args
      = Inr stats"
    by (rule conjunct1[THEN mp])
  then obtain stats where
    run: "runRobustBenchmarks id net_one_host rev example_inventory example_args = Inr stats" ..
  note props = c1[THEN conjunct2, rule_format, OF run]
  from props have p1: "distinct (map fst stats)"
    by (rule conjunct1)
  from props have p2: "set (map fst stats) = {''100.1.1.1'', ''100.1.1.2''}"
    by (simp add: example_inventory_def)
  from props have p3:
    "\<forall>(ip, mods) \<in> set example_inventory.
       \<exists>res. map_of stats ip = Some res \<and> distinct (map fst res) \<and> set (map fst res) = set mods
          \<and> (\<forall>(m, v) \<in> set res.
                (v = PStr ''Failed (Warmup)'' \<or> v = PStr ''Failed'' \<or> (\<exists>x. v = PNum x))
                \<and> (\<exists>h. fst (benchmarkSingleModel id net_one_host h ip m example_args) = Inr v))"
    by (rule conjunct2[THEN conjunct2])
  from p3 have p4: "\<exists>res. map_of stats ''100.1.1.1'' = Some res \<and> distinct (map fst res)
               \<and> set (map fst res) = {''llama3'', ''phi3''}"
    unfolding example_inventory_def by fastforce
  from p3 have p5: "\<exists>res. map_of stats ''100.1.1.2'' = Some res \<and> distinct (map fst res)
               \<and> set (map fst res) = {''llama3''}"
    unfolding example_inventory_def by fastforce
  from run p1 p2 p4 p5 have ex:
    "\<exists>stats. runRobustBenchmarks id net_one_host rev example_inventory example_args = Inr stats
        \<and> distinct (map fst stats)
        \<and> set (map fst stats) = {''100.1.1.1'', ''100.1.1.2''}
        \<and> (\<exists>res. map_of stats ''100.1.1.1'' = Some res \<and> distinct (map fst res)
               \<and> set (map fst res) = {''llama3'', ''phi3''})
        \<and> (\<exists>res. map_of stats ''100.1.1.2'' = Some res \<and> distinct (map fst res)
               \<and> set (map fst res) = {''llama3''})"
    by (intro exI[of _ stats] conjI)
  show ?thesis
    by (intro conjI) (rule d, rule ok[THEN conjunct1], rule ok[THEN conjunct2], rule ex,
      rule example_run)
qed

section \<open>Properties of the routing table\<close>

lemma if_empty_sort_key: "(if xs = [] then [] else sort_key f xs) = sort_key f xs"
  by simp

lemma routing_eq:
  "generateRoutingDataFrame stats =
     sort_key (\<lambda>r. (row_model r, - row_tps r))
       (concat (map (\<lambda>(ip, models). host_rows ip models) stats))"
  unfolding generateRoutingDataFrame_def Let_def by (rule if_empty_sort_key)

lemma host_rows_set:
  "r \<in> set (host_rows ip models) \<longleftrightarrow>
     (\<exists>m x. (m, PNum x) \<in> set models
        \<and> r = \<lparr>row_model = m, row_route = ''ollama/'' @ m,
                row_ip = ''http://'' @ ip @ '':11434'', row_tps = x\<rparr>)"
  unfolding host_rows_def
  by (induction models) (auto split: pyval.splits)

lemma routing_set:
  "r \<in> set (generateRoutingDataFrame stats) \<longleftrightarrow>
     (\<exists>ip models m x. (ip, models) \<in> set stats \<and> (m, PNum x) \<in> set models
        \<and> r = \<lparr>row_model = m, row_route = ''ollama/'' @ m,
                row_ip = ''http://'' @ ip @ '':11434'', row_tps = x\<rparr>)"
  unfolding routing_eq
  by (induction stats) (auto simp: host_rows_set)

lemma host_rows_keys:
  "map (\<lambda>r. (row_ip r, row_model r)) (host_rows ip models) =
     map (\<lambda>(m, v). (''http://'' @ ip @ '':11434'', m))
       (filter (\<lambda>(m, v). \<exists>x. v = PNum x) models)"
  unfolding host_rows_def
  by (induction models) (auto split: pyval.splits)

lemma distinct_pair_keys:
  "distinct (map fst xs) \<Longrightarrow> distinct (map (\<lambda>(m, v). (u, m)) xs)"
  by (induction xs) force+

lemma host_rows_distinct:
  assumes "distinct (map fst models)"
  shows "distinct (map (\<lambda>r. (row_ip r, row_model r)) (host_rows ip models))"
proof -
  have "distinct (map fst (filter (\<lambda>(m, v). \<exists>x. v = PNum x) models))"
    using assms by (rule distinct_map_filter)
  then have "distinct (map (\<lambda>(m, v). (''http://'' @ ip @ '':11434'', m))
       (filter (\<lambda>(m, v). \<exists>x. v = PNum x) models))"
    by (rule distinct_pair_keys)
  then show ?thesis by (simp only: host_rows_keys)
qed

lemma host_rows_ip: "r \<in> set (host_rows ip models) \<Longrightarrow> row_ip r = ''http://'' @ ip @ '':11434''"
  by (auto simp: host_rows_set)

lemma rows_distinct:
  assumes "distinct (map fst stats)"
    and "\<forall>(ip, models) \<in> set stats. distinct (map fst models)"
  shows "distinct (map (\<lambda>r. (row_ip r, row_model r))
           (concat (map (\<lambda>(ip, models). host_rows ip models) stats)))"
  using assms
proof (induction stats)
  case Nil
  show ?case by simp
next
  case (Cons p stats)
  obtain ip models where p: "p = (ip, models)" by (cases p)
  from Cons.prems p have notin: "ip \<notin> fst ` set stats" by simp
  let ?f = "\<lambda>r. (row_ip r, row_model r)"
  let ?A = "host_rows ip models"
  let ?B = "concat (map (\<lambda>(ip, models). host_rows ip models) stats)"
  have disj: "?f ` set ?A \<inter> ?f ` set ?B = {}"
  proof (rule ccontr)
    assume "?f ` set ?A \<inter> ?f ` set ?B \<noteq> {}"
    then obtain r s where r: "r \<in> set ?A" and s: "s \<in> set ?B" and eq: "?f r = ?f s"
      by blast
    from s obtain ip' models' where mem: "(ip', models') \<in> set stats"
      and s': "s \<in> set (host_rows ip' models')" by auto
    from mem notin have "ip' \<noteq> ip" by force
    with host_rows_ip[OF r] host_rows_ip[OF s'] eq show False by simp
  qed
  from Cons.prems p have dA: "distinct (map ?f ?A)"
    by (intro host_rows_distinct) simp
  from Cons have dB: "distinct (map ?f ?B)"
    by simp
  have "concat (map (\<lambda>(ip, models). host_rows ip models) (p # stats)) = ?A @ ?B"
    by (simp add: p)
  with dA dB disj show ?case
    by (simp only: map_append distinct_append set_map)
qed

lemma routing_sorted:
  "sorted_wrt (\<lambda>r s. row_model r < row_model s
                 \<or> (row_model r = row_model s \<and> row_tps s \<le> row_tps r))
     (generateRoutingDataFrame stats)"
proof -
  let ?K = "\<lambda>r. (row_model r, - row_tps r)"
  have "sorted (map ?K (generateRoutingDataFrame stats))"
    unfolding routing_eq by (rule sorted_sort_key)
  then have "sorted_wrt (\<lambda>r s. ?K r \<le> ?K s) (generateRoutingDataFrame stats)"
    by (simp add: sorted_map)
  then show ?thesis
    by (rule sorted_wrt_mono_rel[rotated]) (auto simp: less_eq_prod_def)
qed

lemma example_table:
  "generateRoutingDataFrame example_stats =
     [\<lparr>row_model = ''llama3'', row_route = ''ollama/llama3'',
       row_ip = ''http://100.1.1.2:11434'', row_tps = 50\<rparr>,
      \<lparr>row_model = ''llama3'', row_route = ''ollama/llama3'',
       row_ip = ''http://100.1.1.1:11434'', row_tps = 2037 / 100\<rparr>,
      \<lparr>row_model = ''phi3'', row_route = ''ollama/phi3'',
       row_ip = ''http://100.1.1.1:11434'', row_tps = 31\<rparr>]"
  by code_simp

text \<open>
  Claim C5. The routing table has a row for a (host, model) pair exactly when the
  value of the pair is numeric, and at most one row for a pair (the keys of a dict are
  distinct). It is sorted by model ascending, then by throughput descending, so of two
  rows with the same model the earlier has the greater or equal throughput. With no
  numeric value in the results, the table is empty.
\<close>

theorem C5_routing_table_filtered_and_sorted:
  assumes "distinct (map fst stats)"
    and "\<forall>(ip, models) \<in> set stats. distinct (map fst models)"
  shows "(\<forall>r. r \<in> set (generateRoutingDataFrame stats) \<longleftrightarrow>
            (\<exists>ip models m x. (ip, models) \<in> set stats \<and> (m, PNum x) \<in> set models
               \<and> r = \<lparr>row_model = m, row_route = ''ollama/'' @ m,
                       row_ip = ''http://'' @ ip @ '':11434'', row_tps = x\<rparr>))
       \<and> distinct (map (\<lambda>r. (row_ip r, row_model r)) (generateRoutingDataFrame stats))
       \<and> sorted_wrt (\<lambda>r s. row_model r < row_model s
                        \<or> (row_model r = row_model s \<and> row_tps s \<le> row_tps r))
            (generateRoutingDataFrame stats)
       \<and> (\<forall>i j. i < j \<and> j < length (generateRoutingDataFrame stats)
              \<and> row_model (generateRoutingDataFrame stats ! i)
                  = row_model (generateRoutingDataFrame stats ! j) \<longrightarrow>
              row_tps (generateRoutingDataFrame stats ! j)
                \<le> row_tps (generateRoutingDataFrame stats ! i))
       \<and> ((\<forall>(ip, models) \<in> set stats. \<forall>(m, v) \<in> set models. \<forall>x. v \<noteq> PNum x) \<longrightarrow>
            generateRoutingDataFrame stats = [])"
proof (intro conjI allI impI)
  fix r
  show "r \<in> set (generateRoutingDataFrame stats) \<longleftrightarrow>
            (\<exists>ip models m x. (ip, models) \<in> set stats \<and> (m, PNum x) \<in> set models
               \<and> r = \<lparr>row_model = m, row_route = ''ollama/'' @ m,
                       row_ip = ''http://'' @ ip @ '':11434'', row_tps = x\<rparr>)"
    by (rule routing_set)
next
  have "mset (generateRoutingDataFrame stats)
      = mset (concat (map (\<lambda>(ip, models). host_rows ip models) stats))"
    unfolding routing_eq by simp
  then show "distinct (map (\<lambda>r. (row_ip r, row_model r)) (generateRoutingDataFrame stats))"
    using rows_distinct[OF assms] by (rule perm_distinct_map)
next
  show "sorted_wrt (\<lambda>r s. row_model r < row_model s
                        \<or> (row_model r = row_model s \<and> row_tps s \<le> row_tps r))
            (generateRoutingDataFrame stats)"
    by (rule routing_sorted)
next
  fix i j
  assume h: "i < j \<and> j < length (generateRoutingDataFrame stats)
              \<and> row_model (generateRoutingDataFrame stats ! i)
                  = row_model (generateRoutingDataFrame stats ! j)"
  let ?T = "generateRoutingDataFrame stats"
  have "\<forall>i j. i < j \<longrightarrow> j < length ?T \<longrightarrow>
          row_model (?T ! i) < row_model (?T ! j)
          \<or> (row_model (?T ! i) = row_model (?T ! j) \<and> row_tps (?T ! j) \<le> row_tps (?T ! i))"
    using routing_sorted[of stats] by (simp only: sorted_wrt_iff_nth_less)
  with h have "row_model (?T ! i) < row_model (?T ! j)
      \<or> (row_model (?T ! i) = row_model (?T ! j) \<and> row_tps (?T ! j) \<le> row_tps (?T ! i))"
    by blast
  with h show "row_tps (generateRoutingDataFrame stats ! j)
                \<le> row_tps (generateRoutingDataFrame stats ! i)"
    by auto
next
  assume none: "\<forall>(ip, models) \<in> set stats. \<forall>(m, v) \<in> set models. \<forall>x. v \<noteq> PNum x"
  have no: "r \<notin> set (generateRoutingDataFrame stats)" for r
  proof
    assume "r \<in> set (generateRoutingDataFrame stats)"
    then obtain ip models m x where "(ip, models) \<in> set stats" "(m, PNum x) \<in> set models"
      unfolding routing_set by blast
    with none show False by blast
  qed
  show "generateRoutingDataFrame stats = []"
  proof (cases "generateRoutingDataFrame stats")
    case Nil
    then show ?thesis .
  next
    case (Cons r rs)
    with no[of r] show ?thesis by simp
  qed
qed

theorem C5_routing_table_filtered_and_sorted_witness:
  "distinct (map fst example_stats)
   \<and> list_all (\<lambda>(ip, models). distinct (map fst models)) example_stats
   \<and> distinct (map (\<lambda>r. (row_ip r, row_model r)) (generateRoutingDataFrame example_stats))
   \<and> sorted_wrt (\<lambda>r s. row_model r < row_model s
                    \<or> (row_model r = row_model s \<and> row_tps s \<le> row_tps r))
        (generateRoutingDataFrame example_stats)
   \<and> generateRoutingDataFrame example_stats =
       [\<lparr>row_model = ''llama3'', row_route = ''ollama/llama3'',
         row_ip = ''http://100.1.1.2:11434'', row_tps = 50\<rparr>,
        \<lparr>row_model = ''llama3'', row_route = ''ollama/llama3'',
         row_ip = ''http://100.1.1.1:11434'', row_tps = 2037 / 100\<rparr>,
        \<lparr>row_model = ''phi3'', row_route = ''ollama/phi3'',
         row_ip = ''http://100.1.1.1:11434'', row_tps = 31\<rparr>]
   \<and> generateRoutingDataFrame [(''100.1.1.3'', [(''llama3'', PStr ''Failed (Warmup)'')])] = []"
proof -
  have d1: "distinct (map fst example_stats)"
    by (simp add: example_stats_def)
  have d2: "\<forall>(ip, models) \<in> set example_stats. distinct (map fst models)"
    by (simp add: example_stats_def)
  have la: "list_all (\<lambda>(ip, models). distinct (map fst models)) example_stats"
    by (simp add: example_stats_def)
  note c5 = C5_routing_table_filtered_and_sorted[OF d1 d2]
  from c5 have a: "distinct (map (\<lambda>r. (row_ip r, row_model r))
      (generateRoutingDataFrame example_stats))"
    by (rule conjunct2[THEN conjunct1])
  from c5 have b: "sorted_wrt (\<lambda>r s. row_model r < row_model s
                    \<or> (row_model r = row_model s \<and> row_tps s \<le> row_tps r))
        (generateRoutingDataFrame example_stats)"
    by (rule conjunct2[THEN conjunct2, THEN conjunct1])
  have "generateRoutingDataFrame [(''100.1.1.3'', [(''llama3'', PStr ''Failed (Warmup)'')])] = []"
    using C5_routing_table_filtered_and_sorted
      [of "[(''100.1.1.3'', [(''llama3'', PStr ''Failed (Warmup)'')])]"]
    by simp
  with d1 la a b example_table show ?thesis
    by (intro conjI)
qed

section \<open>Properties of the inventory\<close>

lemma getModels_fst: "fst (getModelsOnHost out ip) = ip"
  by (simp add: getModelsOnHost_def split: sum.splits)

lemma getModels_snd:
  "snd (getModelsOnHost out ip) \<noteq> [] \<longleftrightarrow> (\<exists>ms. tags_models out = Inr ms \<and> ms \<noteq> [])"
  by (simp add: getModelsOnHost_def split: sum.splits)

lemma inv_step_simps:
  "inv_step (ip, []) acc = acc"
  "ms \<noteq> [] \<Longrightarrow> inv_step (ip, ms) acc = dict_set ip ms acc"
  by (simp_all add: inv_step_def)

lemma inv_step_cases:
  obtains "snd f = []" "inv_step f acc = acc"
  | "snd f \<noteq> []" "inv_step f acc = dict_set (fst f) (snd f) acc"
  by (cases f) (auto simp: inv_step_def)

lemma inv_step_nonempty:
  assumes "\<forall>(ip, ms) \<in> set acc. ms \<noteq> []"
  shows "\<forall>(ip, ms) \<in> set (inv_step f acc). ms \<noteq> []"
proof (cases f acc rule: inv_step_cases)
  case 1
  with assms show ?thesis by simp
next
  case 2
  with assms dict_set_subset[of "fst f" "snd f" acc] show ?thesis by auto
qed

lemma fold_nonempty:
  "\<forall>(ip, ms) \<in> set acc. ms \<noteq> [] \<Longrightarrow> \<forall>(ip, ms) \<in> set (fold inv_step fs acc). ms \<noteq> []"
proof (induction fs arbitrary: acc)
  case Nil
  then show ?case by simp
next
  case (Cons f fs)
  from Cons.IH[OF inv_step_nonempty[OF Cons.prems, of f]] show ?case by simp
qed

lemma fold_distinct:
  "distinct (map fst acc) \<Longrightarrow> distinct (map fst (fold inv_step fs acc))"
proof (induction fs arbitrary: acc)
  case Nil
  then show ?case by simp
next
  case (Cons f fs)
  show ?case
  proof (cases f acc rule: inv_step_cases)
    case 1
    with Cons show ?thesis by simp
  next
    case 2
    from Cons.IH[OF dict_set_distinct[OF Cons.prems]] 2(2) show ?thesis by simp
  qed
qed

lemma fold_keys:
  "fst ` set (fold inv_step fs acc) = fst ` set acc \<union> {ip. \<exists>ms. (ip, ms) \<in> set fs \<and> ms \<noteq> []}"
proof (induction fs arbitrary: acc)
  case Nil
  show ?case by simp
next
  case (Cons f fs)
  obtain ip ms where f: "f = (ip, ms)" by (cases f)
  show ?case
  proof (cases "ms = []")
    case True
    have "{i. \<exists>m. (i, m) \<in> set (f # fs) \<and> m \<noteq> []} = {i. \<exists>m. (i, m) \<in> set fs \<and> m \<noteq> []}"
      using True f by auto
    with Cons.IH[of acc] True show ?thesis
      by (simp add: f inv_step_simps)
  next
    case False
    have "{i. \<exists>m. (i, m) \<in> set (f # fs) \<and> m \<noteq> []}
        = insert ip {i. \<exists>m. (i, m) \<in> set fs \<and> m \<noteq> []}"
      using False f by auto
    with Cons.IH[of "dict_set ip ms acc"] False show ?thesis
      by (simp add: f inv_step_simps dict_set_keys)
  qed
qed

lemma mapNetwork_eq:
  "mapNetwork tags sched hosts =
     fold inv_step
       (sched (map (\<lambda>(i, ip). getModelsOnHost (tags i ip) ip) (enumerate 0 hosts))) []"
  by (simp add: mapNetwork_def inv_step_def Let_def)

lemma futures_mem:
  "(ip, ms) \<in> set (map (\<lambda>(i, ip). getModelsOnHost (tags i ip) ip) (enumerate 0 hosts)) \<longleftrightarrow>
     (\<exists>i<length hosts. hosts ! i = ip \<and> snd (getModelsOnHost (tags i ip) ip) = ms)"
proof
  assume "(ip, ms) \<in> set (map (\<lambda>(i, ip). getModelsOnHost (tags i ip) ip) (enumerate 0 hosts))"
  then obtain i h where mem: "(i, h) \<in> set (enumerate 0 hosts)"
    and e: "getModelsOnHost (tags i h) h = (ip, ms)"
    by auto
  from mem have "i < length hosts" "hosts ! i = h"
    by (simp_all add: in_set_enumerate_eq)
  moreover from e getModels_fst[of "tags i h" h] have "h = ip" by simp
  ultimately show "\<exists>i<length hosts. hosts ! i = ip \<and> snd (getModelsOnHost (tags i ip) ip) = ms"
    using e by auto
next
  assume "\<exists>i<length hosts. hosts ! i = ip \<and> snd (getModelsOnHost (tags i ip) ip) = ms"
  then obtain i where i: "i < length hosts" "hosts ! i = ip"
    and s: "snd (getModelsOnHost (tags i ip) ip) = ms" by blast
  from i have "(i, ip) \<in> set (enumerate 0 hosts)"
    by (simp add: in_set_enumerate_eq)
  moreover have "getModelsOnHost (tags i ip) ip = (ip, ms)"
    using s getModels_fst[of "tags i ip" ip] by (cases "getModelsOnHost (tags i ip) ip") simp
  ultimately show "(ip, ms) \<in> set (map (\<lambda>(i, ip). getModelsOnHost (tags i ip) ip) (enumerate 0 hosts))"
    by force
qed

lemma example_mapNetwork:
  "mapNetwork example_tags rev [''100.1.1.1'', ''100.1.1.2'', ''100.1.1.3'', ''100.1.1.4'']
     = [(''100.1.1.1'', [JStr ''llama3'', JStr ''phi3''])]"
  by code_simp

text \<open>
  Claim C7. Whatever the order in which the queries complete, the inventory never maps
  a host to an empty list of models, its keys are distinct, and a host is a key exactly
  when one of its queries returned a non-empty list: a host whose query raised, was
  answered with an error status or a malformed body, or listed no model, is absent.
\<close>

theorem C7_inventory_has_no_empty_host:
  assumes perm: "\<And>fs. mset (sched fs) = mset fs"
  shows "(\<forall>(ip, models) \<in> set (mapNetwork tags sched hosts). models \<noteq> [])
       \<and> distinct (map fst (mapNetwork tags sched hosts))
       \<and> (\<forall>ip. ip \<in> fst ` set (mapNetwork tags sched hosts) \<longleftrightarrow>
            (\<exists>i<length hosts. hosts ! i = ip
               \<and> (\<exists>ms. tags_models (tags i ip) = Inr ms \<and> ms \<noteq> [])))"
proof (intro conjI allI)
  let ?futures = "map (\<lambda>(i, ip). getModelsOnHost (tags i ip) ip) (enumerate 0 hosts)"
  have same: "set (sched ?futures) = set ?futures"
    using perm[of ?futures] by (rule mset_eq_setD)
  show "\<forall>(ip, models) \<in> set (mapNetwork tags sched hosts). models \<noteq> []"
    unfolding mapNetwork_eq by (rule fold_nonempty) simp
  show "distinct (map fst (mapNetwork tags sched hosts))"
    unfolding mapNetwork_eq by (rule fold_distinct) simp
  fix ip
  have "ip \<in> fst ` set (mapNetwork tags sched hosts) \<longleftrightarrow>
      (\<exists>ms. (ip, ms) \<in> set ?futures \<and> ms \<noteq> [])"
    unfolding mapNetwork_eq fold_keys same by simp
  also have "\<dots> \<longleftrightarrow> (\<exists>i<length hosts. hosts ! i = ip
      \<and> snd (getModelsOnHost (tags i ip) ip) \<noteq> [])"
    unfolding futures_mem by blast
  also have "\<dots> \<longleftrightarrow> (\<exists>i<length hosts. hosts ! i = ip
               \<and> (\<exists>ms. tags_models (tags i ip) = Inr ms \<and> ms \<noteq> []))"
    unfolding getModels_snd ..
  finally show "ip \<in> fst ` set (mapNetwork tags sched hosts) \<longleftrightarrow>
            (\<exists>i<length hosts. hosts ! i = ip
               \<and> (\<exists>ms. tags_models (tags i ip) = Inr ms \<and> ms \<noteq> []))" .
qed

theorem C7_inventory_has_no_empty_host_witness:
  "(\<forall>fs :: (string \<times> json list) list. mset (rev fs) = mset fs)
   \<and> list_all (\<lambda>(ip, models). models \<noteq> [])
        (mapNetwork example_tags rev [''100.1.1.1'', ''100.1.1.2'', ''100.1.1.3'', ''100.1.1.4''])
   \<and> distinct (map fst
        (mapNetwork example_tags rev [''100.1.1.1'', ''100.1.1.2'', ''100.1.1.3'', ''100.1.1.4'']))
   \<and> ''100.1.1.2'' \<notin> fst `
        set (mapNetwork example_tags rev [''100.1.1.1'', ''100.1.1.2'', ''100.1.1.3'', ''100.1.1.4''])
   \<and> mapNetwork example_tags rev [''100.1.1.1'', ''100.1.1.2'', ''100.1.1.3'', ''100.1.1.4'']
       = [(''100.1.1.1'', [JStr ''llama3'', JStr ''phi3''])]"
proof -
  let ?hosts = "[''100.1.1.1'', ''100.1.1.2'', ''100.1.1.3'', ''100.1.1.4'']"
  have p: "mset (rev fs) = mset fs" for fs :: "(string \<times> json list) list"
    by simp
  note c7 = C7_inventory_has_no_empty_host[of rev example_tags ?hosts, OF p]
  from c7 have "\<forall>(ip, models) \<in> set (mapNetwork example_tags rev ?hosts). models \<noteq> []"
    by (rule conjunct1)
  then have a: "list_all (\<lambda>(ip, models). models \<noteq> []) (mapNetwork example_tags rev ?hosts)"
    by (simp add: list_all_iff)
  from c7 have b: "distinct (map fst (mapNetwork example_tags rev ?hosts))"
    by (rule conjunct2[THEN conjunct1])
  from c7 have iff: "''100.1.1.2'' \<in> fst ` set (mapNetwork example_tags rev ?hosts) \<longleftrightarrow>
      (\<exists>i<length ?hosts. ?hosts ! i = ''100.1.1.2''
         \<and> (\<exists>ms. tags_models (example_tags i ''100.1.1.2'') = Inr ms \<and> ms \<noteq> []))"
    by (rule conjunct2[THEN conjunct2, THEN spec])
  have "tags_models (example_tags i ''100.1.1.2'') = Inr []" for i
    by (simp add: tags_models_def example_tags_def)
  with iff have c: "''100.1.1.2'' \<notin> fst ` set (mapNetwork example_tags rev ?hosts)"
    by simp
  from p have p': "\<forall>fs :: (string \<times> json list) list. mset (rev fs) = mset fs" ..
  show ?thesis
    by (intro conjI) (rule p', rule a, rule b, rule c, rule example_mapNetwork)
qed

end
